theory Spec2Isabelle
  imports Complex_Main
begin

section \<open>Python strings\<close>

text \<open>
  A Python \<open>str\<close> is modelled as a \<open>string\<close>, one \<open>char\<close> per code point, so the model
  covers the code points below 256. \<open>str.lower\<close> maps \<open>A..Z\<close> and the upper-case
  letters \<open>0xC0..0xDE\<close> (except the multiplication sign \<open>0xD7\<close>) to the code point 32
  above; \<open>str.strip\<close> removes leading and trailing white space, which for a \<open>str\<close> is
  the code points 9 to 13, 28 to 32, 133 and 160.
\<close>

definition lower_char :: "char \<Rightarrow> char" where
  "lower_char c =
     (let n = (of_char c :: nat)
      in if (65 \<le> n \<and> n \<le> 90) \<or> (192 \<le> n \<and> n \<le> 222 \<and> n \<noteq> 215)
         then char_of (n + 32) else c)"

definition lower :: "string \<Rightarrow> string" where
  "lower s = map lower_char s"

definition isspace :: "char \<Rightarrow> bool" where
  "isspace c =
     (let n = (of_char c :: nat)
      in (9 \<le> n \<and> n \<le> 13) \<or> (28 \<le> n \<and> n \<le> 32) \<or> n = 133 \<or> n = 160)"

definition strip :: "string \<Rightarrow> string" where
  "strip s = rev (dropWhile isspace (rev (dropWhile isspace s)))"

section \<open>The similarity ratio of \<open>difflib.SequenceMatcher\<close>\<close>

text \<open>
  \<open>nlp.py\<close> scores a pair of strings with
  \<open>difflib.SequenceMatcher(None, a, b).ratio()\<close> of the Python standard library:
  no junk predicate, the automatic junk heuristic left on. The definitions below follow
  the library's methods \<open>__chain_b\<close>, \<open>find_longest_match\<close>, \<open>get_matching_blocks\<close>
  and \<open>ratio\<close>.
\<close>

text \<open>
  \<open>__chain_b\<close>: \<open>b2j[elt]\<close> lists, in increasing order, the indices of \<open>b\<close> that hold
  \<open>elt\<close>. When \<open>b\<close> has at least 200 elements, an element that occurs more than
  \<open>len(b) // 100 + 1\<close> times is popular and its entry is deleted; \<open>b2j.get(elt, [])\<close>
  is then the empty list. The junk set stays empty, since \<open>isjunk\<close> is \<open>None\<close>.
\<close>

definition b2j :: "string \<Rightarrow> char \<Rightarrow> nat list" where
  "b2j b elt =
     (let n = length b;
          indices = filter (\<lambda>i. b ! i = elt) [0..<n]
      in if n \<ge> 200 \<and> length indices > n div 100 + 1 then [] else indices)"

text \<open>
  The inner loop of \<open>find_longest_match\<close>, over the indices \<open>j\<close> of \<open>b\<close> that hold
  \<open>a[i]\<close>: an index below \<open>blo\<close> is skipped, the first one at or above \<open>bhi\<close> ends the
  loop. \<open>j2len\<close> is the dictionary of the previous row and \<open>newj2len\<close> the one being
  filled; \<open>j2len.get(j-1, 0)\<close> at \<open>j = 0\<close> asks for the key \<open>-1\<close>, which is never there.
\<close>

type_synonym best = "nat \<times> nat \<times> nat"

fun scan_row :: "nat \<Rightarrow> nat \<Rightarrow> nat \<Rightarrow> (nat \<rightharpoonup> nat) \<Rightarrow> nat list
    \<Rightarrow> (nat \<rightharpoonup> nat) \<times> best \<Rightarrow> (nat \<rightharpoonup> nat) \<times> best" where
  "scan_row i blo bhi j2len [] st = st"
| "scan_row i blo bhi j2len (j # js) (newj2len, besti, bestj, bestsize) =
     (if j < blo then scan_row i blo bhi j2len js (newj2len, besti, bestj, bestsize)
      else if j \<ge> bhi then (newj2len, besti, bestj, bestsize)
      else
        let k = (if j = 0 then 0 else case j2len (j - 1) of None \<Rightarrow> 0 | Some l \<Rightarrow> l) + 1;
            newj2len' = newj2len(j \<mapsto> k)
        in if k > bestsize
           then scan_row i blo bhi j2len js (newj2len', i + 1 - k, j + 1 - k, k)
           else scan_row i blo bhi j2len js (newj2len', besti, bestj, bestsize))"

text \<open>The body of the loop \<open>for i in range(alo, ahi)\<close>; the state is \<open>j2len\<close> and the best block.\<close>

definition scan_step :: "string \<Rightarrow> string \<Rightarrow> nat \<Rightarrow> nat
    \<Rightarrow> (nat \<rightharpoonup> nat) \<times> best \<Rightarrow> nat \<Rightarrow> (nat \<rightharpoonup> nat) \<times> best" where
  "scan_step a b blo bhi st i =
     (case st of (j2len, bst) \<Rightarrow> scan_row i blo bhi j2len (b2j b (a ! i)) (Map.empty, bst))"

text \<open>
  The two loops that extend the block over equal elements that are not junk, first to the
  left, then to the right. (The two loops after them extend over junk elements only, and
  there are none.)
\<close>

function extend_left :: "string \<Rightarrow> string \<Rightarrow> nat \<Rightarrow> nat \<Rightarrow> best \<Rightarrow> best" where
  "extend_left a b alo blo (besti, bestj, bestsize) =
     (if besti > alo \<and> bestj > blo \<and> a ! (besti - 1) = b ! (bestj - 1)
      then extend_left a b alo blo (besti - 1, bestj - 1, bestsize + 1)
      else (besti, bestj, bestsize))"
  by pat_completeness auto
termination
  by (relation "measure (\<lambda>(a, b, alo, blo, besti, bestj, bestsize). besti)") auto

function extend_right :: "string \<Rightarrow> string \<Rightarrow> nat \<Rightarrow> nat \<Rightarrow> best \<Rightarrow> best" where
  "extend_right a b ahi bhi (besti, bestj, bestsize) =
     (if besti + bestsize < ahi \<and> bestj + bestsize < bhi
         \<and> a ! (besti + bestsize) = b ! (bestj + bestsize)
      then extend_right a b ahi bhi (besti, bestj, bestsize + 1)
      else (besti, bestj, bestsize))"
  by pat_completeness auto
termination
  by (relation "measure (\<lambda>(a, b, ahi, bhi, besti, bestj, bestsize). ahi - (besti + bestsize))")
     auto

definition find_longest_match :: "string \<Rightarrow> string \<Rightarrow> nat \<Rightarrow> nat \<Rightarrow> nat \<Rightarrow> nat \<Rightarrow> best" where
  "find_longest_match a b alo ahi blo bhi =
     (let st = foldl (scan_step a b blo bhi) (Map.empty, alo, blo, 0) [alo..<ahi]
      in extend_right a b ahi bhi (extend_left a b alo blo (snd st)))"

declare extend_left.simps [simp del]

declare extend_right.simps [simp del]

subsection \<open>The block found lies inside the window\<close>

text \<open>
  While row \<open>i\<close> is scanned, every length stored in \<open>j2len\<close> is the length of a block that
  ends at \<open>a[i-1]\<close> and \<open>b[j]\<close> and lies inside the window, and the best block so far is
  either the initial \<open>(alo, blo, 0)\<close> or a block of the window. This gives the bounds of
  the library's docstring, \<open>alo \<le> i \<le> i+k \<le> ahi\<close> and \<open>blo \<le> j \<le> j+k \<le> bhi\<close>, and with them
  the termination of \<open>get_matching_blocks\<close>.
\<close>

definition row_ok :: "nat \<Rightarrow> nat \<Rightarrow> nat \<Rightarrow> nat \<Rightarrow> (nat \<rightharpoonup> nat) \<Rightarrow> bool" where
  "row_ok alo blo bhi n j2len =
     (\<forall>j l. j2len j = Some l \<longrightarrow> l + alo \<le> n \<and> l + blo \<le> j + 1 \<and> j < bhi)"

definition best_ok :: "nat \<Rightarrow> nat \<Rightarrow> nat \<Rightarrow> nat \<Rightarrow> best \<Rightarrow> bool" where
  "best_ok alo blo bhi n bst =
     (case bst of (besti, bestj, bestsize) \<Rightarrow>
        (bestsize = 0 \<and> besti = alo \<and> bestj = blo) \<or>
        (0 < bestsize \<and> alo \<le> besti \<and> blo \<le> bestj \<and> besti + bestsize \<le> n
           \<and> bestj + bestsize \<le> bhi))"

lemma best_ok_mono: "best_ok alo blo bhi n bst \<Longrightarrow> n \<le> m \<Longrightarrow> best_ok alo blo bhi m bst"
  by (auto simp: best_ok_def)

lemma scan_row_ok:
  "row_ok alo blo bhi i j2len \<Longrightarrow> alo \<le> i \<Longrightarrow> row_ok alo blo bhi (Suc i) new \<Longrightarrow>
   best_ok alo blo bhi (Suc i) bst \<Longrightarrow>
   scan_row i blo bhi j2len js (new, bst) = (new', bst') \<Longrightarrow>
   row_ok alo blo bhi (Suc i) new' \<and> best_ok alo blo bhi (Suc i) bst'"
proof (induction js arbitrary: new bst)
  case Nil
  then show ?case by simp
next
  case (Cons j js)
  obtain besti bestj bestsize where bst: "bst = (besti, bestj, bestsize)"
    by (cases bst) auto
  show ?case
  proof (cases "j < blo")
    case True
    with Cons bst show ?thesis by simp
  next
    case lo: False
    show ?thesis
    proof (cases "bhi \<le> j")
      case True
      with Cons lo bst show ?thesis by simp
    next
      case hi: False
      define k where "k = (if j = 0 then 0 else case j2len (j - 1) of None \<Rightarrow> 0 | Some l \<Rightarrow> l) + 1"
      have prev: "l + alo \<le> i \<and> l + blo \<le> j" if "0 < j" "j2len (j - 1) = Some l" for l
        using Cons.prems(1) that unfolding row_ok_def by fastforce
      have k1: "k + alo \<le> Suc i"
        using Cons.prems(2) prev unfolding k_def by (auto split: option.splits)
      have k2: "k + blo \<le> j + 1"
        using lo prev unfolding k_def by (auto split: option.splits)
      have new_ok: "row_ok alo blo bhi (Suc i) (new(j \<mapsto> k))"
        using Cons.prems(3) k1 k2 hi unfolding row_ok_def by auto
      show ?thesis
      proof (cases "bestsize < k")
        case True
        have b: "best_ok alo blo bhi (Suc i) (i + 1 - k, j + 1 - k, k)"
          using k1 k2 hi True unfolding best_ok_def by auto
        have "scan_row i blo bhi j2len js (new(j \<mapsto> k), i + 1 - k, j + 1 - k, k) = (new', bst')"
          using Cons.prems(5) lo hi True bst by (simp add: k_def Let_def)
        from Cons.IH[OF Cons.prems(1,2) new_ok b this] show ?thesis .
      next
        case False
        have "scan_row i blo bhi j2len js (new(j \<mapsto> k), bst) = (new', bst')"
          using Cons.prems(5) lo hi False bst by (simp add: k_def Let_def)
        from Cons.IH[OF Cons.prems(1,2) new_ok Cons.prems(4) this] show ?thesis .
      qed
    qed
  qed
qed

lemma scan_fold_ok:
  "foldl (scan_step a b blo bhi) (Map.empty, alo, blo, 0) [alo..<n] = (j2len, bst) \<Longrightarrow>
   row_ok alo blo bhi n j2len \<and> best_ok alo blo bhi n bst"
proof (induction n arbitrary: j2len bst)
  case 0
  then show ?case by (auto simp: row_ok_def best_ok_def)
next
  case (Suc n)
  show ?case
  proof (cases "alo \<le> n")
    case True
    obtain j2 b2 where p: "foldl (scan_step a b blo bhi) (Map.empty, alo, blo, 0) [alo..<n] = (j2, b2)"
      by (cases "foldl (scan_step a b blo bhi) (Map.empty, alo, blo, 0) [alo..<n]") auto
    from Suc.IH[OF p] have r: "row_ok alo blo bhi n j2" and bo: "best_ok alo blo bhi n b2" by auto
    have "scan_step a b blo bhi (j2, b2) n = (j2len, bst)"
      using Suc.prems True p by simp
    then have step: "scan_row n blo bhi j2 (b2j b (a ! n)) (Map.empty, b2) = (j2len, bst)"
      by (simp add: scan_step_def)
    have "row_ok alo blo bhi (Suc n) Map.empty" by (simp add: row_ok_def)
    from scan_row_ok[OF r True this best_ok_mono[OF bo] step] show ?thesis by simp
  next
    case False
    with Suc.prems show ?thesis by (auto simp: row_ok_def best_ok_def)
  qed
qed

lemma extend_left_ok:
  "best_ok alo blo bhi n bst \<Longrightarrow> best_ok alo blo bhi n (extend_left a b alo blo bst)"
proof (induction a b alo blo bst rule: extend_left.induct)
  case (1 a b alo blo besti bestj bestsize)
  show ?case
  proof (cases "besti > alo \<and> bestj > blo \<and> a ! (besti - 1) = b ! (bestj - 1)")
    case True
    have nxt: "best_ok alo blo bhi n (besti - 1, bestj - 1, bestsize + 1)"
      using "1.prems" True by (auto simp: best_ok_def)
    have "extend_left a b alo blo (besti, bestj, bestsize)
            = extend_left a b alo blo (besti - 1, bestj - 1, bestsize + 1)"
      using True by (subst extend_left.simps) simp
    with "1.IH"[OF True nxt] show ?thesis by simp
  next
    case False
    have "extend_left a b alo blo (besti, bestj, bestsize) = (besti, bestj, bestsize)"
      using False by (subst extend_left.simps) auto
    with "1.prems" show ?thesis by simp
  qed
qed

lemma extend_right_ok:
  "best_ok alo blo bhi ahi bst \<Longrightarrow> best_ok alo blo bhi ahi (extend_right a b ahi bhi bst)"
proof (induction a b ahi bhi bst rule: extend_right.induct)
  case (1 a b ahi bhi besti bestj bestsize)
  show ?case
  proof (cases "besti + bestsize < ahi \<and> bestj + bestsize < bhi
         \<and> a ! (besti + bestsize) = b ! (bestj + bestsize)")
    case True
    have nxt: "best_ok alo blo bhi ahi (besti, bestj, bestsize + 1)"
      using "1.prems" True by (auto simp: best_ok_def)
    have "extend_right a b ahi bhi (besti, bestj, bestsize)
            = extend_right a b ahi bhi (besti, bestj, bestsize + 1)"
      using True by (subst extend_right.simps) simp
    with "1.IH"[OF True nxt] show ?thesis by simp
  next
    case False
    have "extend_right a b ahi bhi (besti, bestj, bestsize) = (besti, bestj, bestsize)"
      using False by (subst extend_right.simps) auto
    with "1.prems" show ?thesis by simp
  qed
qed

lemma find_longest_match_ok:
  "best_ok alo blo bhi ahi (find_longest_match a b alo ahi blo bhi)"
proof -
  obtain j2len bst where p: "foldl (scan_step a b blo bhi) (Map.empty, alo, blo, 0) [alo..<ahi] = (j2len, bst)"
    by (cases "foldl (scan_step a b blo bhi) (Map.empty, alo, blo, 0) [alo..<ahi]") auto
  from scan_fold_ok[OF p] have "best_ok alo blo bhi ahi bst" by simp
  then show ?thesis
    unfolding find_longest_match_def Let_def p snd_conv
    by (intro extend_right_ok extend_left_ok)
qed

lemma find_longest_match_bounds:
  assumes "find_longest_match a b alo ahi blo bhi = (i, j, k)" and "k \<noteq> 0"
  shows "alo \<le> i" "i + k \<le> ahi" "blo \<le> j" "j + k \<le> bhi"
  using find_longest_match_ok[of alo blo bhi ahi a b] assms by (auto simp: best_ok_def)

subsection \<open>Matching blocks and ratio\<close>

text \<open>
  \<open>get_matching_blocks\<close> takes a window \<open>(alo, ahi, blo, bhi)\<close> from its queue, records the
  longest block found there when its size is not 0, and queues the window to the left of
  the block and the window to its right when neither side of them is empty. \<open>ratio\<close> only
  adds up the sizes of the recorded blocks; sorting the blocks, merging adjacent ones and
  appending the sentinel \<open>(la, lb, 0)\<close> leave that sum unchanged, so \<open>matching_size\<close>
  returns the sum for a window directly.
\<close>

function matching_size :: "string \<Rightarrow> string \<Rightarrow> nat \<Rightarrow> nat \<Rightarrow> nat \<Rightarrow> nat \<Rightarrow> nat" where
  "matching_size a b alo ahi blo bhi =
     (case find_longest_match a b alo ahi blo bhi of (i, j, k) \<Rightarrow>
        if k = 0 then 0
        else k + (if alo < i \<and> blo < j then matching_size a b alo i blo j else 0)
               + (if i + k < ahi \<and> j + k < bhi then matching_size a b (i + k) ahi (j + k) bhi else 0))"
  by pat_completeness auto
termination
proof (relation "measure (\<lambda>(a, b, alo, ahi, blo, bhi). ahi - alo)")
  show "wf (measure (\<lambda>(a, b, alo, ahi, blo, bhi). ahi - alo))" by simp
next
  fix a b alo ahi blo bhi i y j k
  assume "(i, y) = find_longest_match a b alo ahi blo bhi" "(j, k) = y" "k \<noteq> 0"
    "alo < i \<and> blo < j"
  then have "find_longest_match a b alo ahi blo bhi = (i, j, k)" by simp
  from find_longest_match_bounds(2)[OF this \<open>k \<noteq> 0\<close>] \<open>alo < i \<and> blo < j\<close> \<open>k \<noteq> 0\<close>
  show "((a, b, alo, i, blo, j), a, b, alo, ahi, blo, bhi)
          \<in> measure (\<lambda>(a, b, alo, ahi, blo, bhi). ahi - alo)" by auto
next
  fix a b alo ahi blo bhi i y j k
  assume "(i, y) = find_longest_match a b alo ahi blo bhi" "(j, k) = y" "k \<noteq> 0"
    "i + k < ahi \<and> j + k < bhi"
  then have "find_longest_match a b alo ahi blo bhi = (i, j, k)" by simp
  from find_longest_match_bounds(1)[OF this \<open>k \<noteq> 0\<close>] \<open>i + k < ahi \<and> j + k < bhi\<close> \<open>k \<noteq> 0\<close>
  show "((a, b, i + k, ahi, j + k, bhi), a, b, alo, ahi, blo, bhi)
          \<in> measure (\<lambda>(a, b, alo, ahi, blo, bhi). ahi - alo)" by auto
qed

declare matching_size.simps [simp del]

text \<open>
  \<open>_calculate_ratio(matches, length)\<close> returns \<open>2.0 * matches / length\<close>, and \<open>1.0\<close> when
  both sequences are empty. The quotient of the two integers is modelled exactly, as a
  rational number. The double that Python computes is the correctly rounded quotient, and
  rounding is monotone; two different quotients with denominators below \<open>2^26\<close> differ by
  more than one unit in the last place, so on strings of fewer than \<open>2^25\<close> characters
  the comparisons \<open>score > best_score\<close> and \<open>best_score > 0.8\<close> of \<open>nlp.py\<close> (where
  \<open>0.8\<close> is the double nearest to \<open>4/5\<close>) have the outcome of the exact comparisons.
\<close>

definition ratio :: "string \<Rightarrow> string \<Rightarrow> rat" where
  "ratio a b =
     (let matches = matching_size a b 0 (length a) 0 (length b);
          length = length a + length b
      in if length \<noteq> 0 then 2 * of_nat matches / of_nat length else 1)"

section \<open>\<open>nlp.py\<close>: similarity matching\<close>

text \<open>
  The two module-level dictionaries. A Python \<open>dict\<close> iterates in insertion order, so each
  is an association list in the order of the literal.
\<close>

type_synonym examples = "(string \<times> string list) list"

definition CATEGORY_EXAMPLES :: examples where
  "CATEGORY_EXAMPLES =
     [(''Food'', [''drink'', ''lunch'', ''dinner'', ''groceries'', ''food'']),
      (''Transport'', [''bus'', ''train'', ''taxi'', ''subway'']),
      (''Entertainment'', [''movie'', ''game'']),
      (''Utilities'', [''mobile'', ''internet'']),
      (''Miscellaneous'', [''other''])]"

definition PAYMENT_EXAMPLES :: examples where
  "PAYMENT_EXAMPLES =
     [(''TD Debit'', [''debit'', ''td debit'']),
      (''Cash'', [''cash'']),
      (''Credit Card'', [''credit'', ''visa'', ''mastercard''])]"

text \<open>
  The body of the inner loop, shared by the two matchers:
  \<^verbatim>\<open>
  score = difflib.SequenceMatcher(None, category, example).ratio()
  if score > best_score:
      best_score = score
      best_category = general
  \<close>
  The state is \<open>(best_score, best_category)\<close>.
\<close>

definition score_example :: "string \<Rightarrow> string \<Rightarrow> rat \<times> string \<Rightarrow> string \<Rightarrow> rat \<times> string" where
  "score_example text general st example =
     (case st of (best_score, best_label) \<Rightarrow>
        let score = ratio text example
        in if score > best_score then (score, general) else (best_score, best_label))"

text \<open>
  The two nested loops \<open>for general, examples in D.items(): for example in examples:\<close>,
  started from \<open>best_score = 0\<close> and the label \<open>"Miscellaneous"\<close>.
\<close>

definition scan_examples :: "examples \<Rightarrow> string \<Rightarrow> rat \<times> string" where
  "scan_examples D text =
     foldl (\<lambda>st (general, examples). foldl (score_example text general) st examples)
       (0, ''Miscellaneous'') D"

definition get_general_category_from_similarity :: "string \<Rightarrow> string" where
  "get_general_category_from_similarity category =
     (let category = strip (lower category);
          (best_score, best_category) = scan_examples CATEGORY_EXAMPLES category
      in if best_score > 4 / 5 then best_category else ''Miscellaneous'')"

definition get_general_payment_method :: "string \<Rightarrow> string" where
  "get_general_payment_method payment_method =
     (let payment_method = strip (lower payment_method);
          (best_score, best_payment) = scan_examples PAYMENT_EXAMPLES payment_method
      in if best_score > 4 / 5 then best_payment else ''Miscellaneous'')"

section \<open>\<open>nlp.py\<close>: the fallback classifier and the pipeline\<close>

text \<open>
  The fitted scikit-learn objects are outside the repository. A fitted vectorizer is
  modelled by its \<open>transform\<close> on one document and a fitted model by its \<open>predict\<close> on one
  row, the feature type \<open>'x\<close> left open; \<open>None\<close> is the untrained case. The calls made to
  them are recorded in a trace, so that a claim that the classifier is not consulted is
  a claim that the trace is empty.
\<close>

type_synonym 'x vectorizer = "string \<Rightarrow> 'x"

type_synonym 'x classifier = "'x \<Rightarrow> string"

datatype 'x call = Transform string | Predict 'x

definition predict_and_refine_category ::
    "string \<Rightarrow> string \<Rightarrow> 'x classifier option \<Rightarrow> 'x vectorizer option \<Rightarrow> string \<times> 'x call list" where
  "predict_and_refine_category description user_category model vectorizer =
     (let general_category = get_general_category_from_similarity user_category
      in if general_category \<noteq> ''Miscellaneous'' then (general_category, [])
         else case (model, vectorizer) of
                (Some m, Some v) \<Rightarrow>
                  (let X_new = v description;
                       predicted_category = m X_new
                   in (predicted_category, [Transform description, Predict X_new]))
              | _ \<Rightarrow> (''Miscellaneous'', []))"

definition predict_and_refine_payment ::
    "string \<Rightarrow> string \<Rightarrow> 'x classifier option \<Rightarrow> 'x vectorizer option \<Rightarrow> string \<times> 'x call list" where
  "predict_and_refine_payment description user_payment model vectorizer =
     (let general_payment = get_general_payment_method user_payment
      in if general_payment \<noteq> ''Miscellaneous'' then (general_payment, [])
         else case (model, vectorizer) of
                (Some m, Some v) \<Rightarrow>
                  (let X_new = v description;
                       predicted_payment = m X_new
                   in (predicted_payment, [Transform description, Predict X_new]))
              | _ \<Rightarrow> (''Miscellaneous'', []))"

text \<open>
  Two stand-ins for fitted objects, used where a statement needs a concrete classifier: a
  vectorizer that hands the document on unchanged and a model that predicts one fixed
  label.
\<close>

definition passthrough_vectorizer :: "string vectorizer" where
  "passthrough_vectorizer document = document"

definition constant_classifier :: "string \<Rightarrow> string classifier" where
  "constant_classifier label X = label"

section \<open>\<open>database.py\<close>: the expense store\<close>

text \<open>
  A document of the \<open>expenses\<close> collection, with the keys \<open>add_expense_db\<close> writes (the
  \<open>_id\<close> that MongoDB adds is left out). \<open>amount\<close> is a float and \<open>float(amount)\<close> returns it
  unchanged; its type is left open. The collection is the list of its documents, in
  insertion order, and \<open>insert_one\<close> appends.
\<close>

record 'amt expense =
  date :: string
  amount :: 'amt
  category :: string
  original_category :: string
  description :: string
  payment_method :: string
  original_payment_method :: string

text \<open>
  Training reads the collection and fits a vectorizer and a model on the descriptions and
  the stored labels. The fit itself is scikit-learn's and is a parameter; it can raise
  (an empty vocabulary is a \<open>ValueError\<close>).
\<close>

datatype error = ValueError

type_synonym 'x fit = "string list \<Rightarrow> string list \<Rightarrow> error + ('x classifier \<times> 'x vectorizer)"

definition train_category_classifier ::
    "'x fit \<Rightarrow> 'amt expense list \<Rightarrow> error + ('x classifier option \<times> 'x vectorizer option)" where
  "train_category_classifier fit data =
     (if length data < 2 then Inr (None, None)
      else case fit (map description data) (map category data) of
             Inl e \<Rightarrow> Inl e
           | Inr (model, vectorizer) \<Rightarrow> Inr (Some model, Some vectorizer))"

definition train_payment_classifier ::
    "'x fit \<Rightarrow> 'amt expense list \<Rightarrow> error + ('x classifier option \<times> 'x vectorizer option)" where
  "train_payment_classifier fit data =
     (if length data < 2 then Inr (None, None)
      else case fit (map description data) (map payment_method data) of
             Inl e \<Rightarrow> Inl e
           | Inr (model, vectorizer) \<Rightarrow> Inr (Some model, Some vectorizer))"

text \<open>A fit that raises, for statements that need a concrete one.\<close>

definition failing_fit :: "'x fit" where
  "failing_fit descriptions labels = Inl ValueError"

text \<open>
  \<open>add_expense_db\<close>; a model or vectorizer object is truthy, \<open>None\<close> is not. The function
  returns \<open>None\<close>; the model returns the collection after the insert.
\<close>

definition add_expense_db ::
    "string \<Rightarrow> 'amt \<Rightarrow> string \<Rightarrow> string \<Rightarrow> string
     \<Rightarrow> 'x classifier option \<Rightarrow> 'x vectorizer option
     \<Rightarrow> 'y classifier option \<Rightarrow> 'y vectorizer option
     \<Rightarrow> 'amt expense list \<Rightarrow> 'amt expense list" where
  "add_expense_db date' amount' category' description' payment_method'
       category_model category_vectorizer payment_model payment_vectorizer expenses =
     (let refined_category = get_general_category_from_similarity category';
          refined_payment = get_general_payment_method payment_method';
          refined_category =
            (if refined_category = ''Miscellaneous'' \<and> category_model \<noteq> None
                \<and> category_vectorizer \<noteq> None
             then fst (predict_and_refine_category description' category'
                         category_model category_vectorizer)
             else refined_category);
          refined_payment =
            (if refined_payment = ''Miscellaneous'' \<and> payment_model \<noteq> None
                \<and> payment_vectorizer \<noteq> None
             then fst (predict_and_refine_payment description' payment_method'
                         payment_model payment_vectorizer)
             else refined_payment);
          expense = \<lparr>date = date', amount = amount', category = refined_category,
                     original_category = category', description = description',
                     payment_method = refined_payment,
                     original_payment_method = payment_method'\<rparr>
      in expenses @ [expense])"

section \<open>The specification's vocabulary\<close>

text \<open>
  The specification speaks of the pairs (canonical label, example) of a label set, of the
  best similarity ratio over all pairs, and of the first pair that attains it. These
  follow the specification's words and are compared with the loop of the code below.
\<close>

definition pairs :: "examples \<Rightarrow> (string \<times> string) list" where
  "pairs D = concat (map (\<lambda>(general, examples). map (Pair general) examples) D)"

definition best_ratio :: "examples \<Rightarrow> string \<Rightarrow> rat" where
  "best_ratio D text = foldl max 0 (map (\<lambda>(general, example). ratio text example) (pairs D))"

definition earliest_best :: "examples \<Rightarrow> string \<Rightarrow> (string \<times> string) option" where
  "earliest_best D text =
     (let best = best_ratio D text
      in find (\<lambda>(general, example). ratio text example = best) (pairs D))"

definition canonical_labels :: "examples \<Rightarrow> string set" where
  "canonical_labels D = set (map fst D) \<union> {''Miscellaneous''}"

section \<open>Facts about the ratio and the scanning loop\<close>

lemma ratio_nonneg: "0 \<le> ratio a b"
  by (simp add: ratio_def Let_def)

lemma matching_size_empty: "matching_size [] b 0 0 0 n = 0"
proof -
  have l: "extend_left [] b 0 0 (0, 0, 0) = (0, 0, 0)"
    by (subst extend_left.simps) simp
  have r: "extend_right [] b 0 n (0, 0, 0) = (0, 0, 0)"
    by (subst extend_right.simps) simp
  have "find_longest_match [] b 0 0 0 n = (0, 0, 0)"
    by (simp add: find_longest_match_def l r)
  then show ?thesis
    by (subst matching_size.simps) simp
qed

lemma ratio_empty: "ratio [] b = (if b = [] then 1 else 0)"
  by (simp add: ratio_def matching_size_empty)

lemma foldl_max_ge: "(s::rat) \<le> foldl max s xs"
proof (induction xs arbitrary: s)
  case Nil
  show ?case by simp
next
  case (Cons x xs)
  have "s \<le> max s x" by simp
  also have "\<dots> \<le> foldl max (max s x) xs" by (rule Cons.IH)
  finally show ?case by simp
qed

text \<open>
  The nested loops visit the pairs of the label set in order; the state after them is the
  best ratio and, when that is positive, the label of the first pair that attains it.
\<close>

lemma pairs_Cons: "pairs ((general, examples) # D) = map (Pair general) examples @ pairs D"
  by (simp add: pairs_def)

lemma scan_examples_flat_aux:
  "foldl (\<lambda>st (general, examples). foldl (score_example text general) st examples) st D
     = foldl (\<lambda>st p. score_example text (fst p) st (snd p)) st (pairs D)"
proof (induction D arbitrary: st)
  case Nil
  show ?case by (simp add: pairs_def)
next
  case (Cons d D)
  obtain general examples where d: "d = (general, examples)" by (cases d) auto
  have "foldl (\<lambda>st p. score_example text (fst p) st (snd p)) st (map (Pair general) examples)
          = foldl (score_example text general) st examples"
    by (simp add: foldl_map)
  then show ?case
    using Cons.IH by (simp add: d pairs_Cons)
qed

lemma scan_examples_flat:
  "scan_examples D text
     = foldl (\<lambda>st p. score_example text (fst p) st (snd p)) (0, ''Miscellaneous'') (pairs D)"
  by (simp add: scan_examples_def scan_examples_flat_aux)

lemma flat_scan:
  "foldl (\<lambda>st p. score_example text (fst p) st (snd p)) (s0, l0) ps = (s, l) \<Longrightarrow>
   s = foldl max s0 (map (\<lambda>p. ratio text (snd p)) ps) \<and>
   (if s0 < s then map_option fst (find (\<lambda>p. ratio text (snd p) = s) ps) = Some l
    else l = l0)"
proof (induction ps arbitrary: s0 l0)
  case Nil
  then show ?case by simp
next
  case (Cons p ps)
  let ?sc = "\<lambda>p. ratio text (snd p)"
  have R: "foldl max s0 (map ?sc (p # ps)) = foldl max (max s0 (?sc p)) (map ?sc ps)"
    by simp
  show ?case
  proof (cases "s0 < ?sc p")
    case True
    then have run: "foldl (\<lambda>st p. score_example text (fst p) st (snd p)) (?sc p, fst p) ps = (s, l)"
      using Cons.prems by (simp add: score_example_def)
    note ih = Cons.IH[OF run]
    have s: "s = foldl max (?sc p) (map ?sc ps)"
      by (rule ih[THEN conjunct1])
    have lab: "if ?sc p < s
               then map_option fst (find (\<lambda>p. ratio text (snd p) = s) ps) = Some l
               else l = fst p"
      by (rule ih[THEN conjunct2])
    have ge: "?sc p \<le> s"
      unfolding s by (rule foldl_max_ge)
    with True have lt: "s0 < s" by simp
    have A: "s = foldl max s0 (map ?sc (p # ps))"
      unfolding R s using True by (simp add: max_def)
    have B: "map_option fst (find (\<lambda>p. ratio text (snd p) = s) (p # ps)) = Some l"
    proof (cases "?sc p = s")
      case True
      then have "\<not> ?sc p < s" by simp
      with lab have "l = fst p" by (simp only: if_False)
      with True show ?thesis by simp
    next
      case False
      with ge have "?sc p < s" by simp
      with lab have "map_option fst (find (\<lambda>p. ratio text (snd p) = s) ps) = Some l"
        by (simp only: if_True)
      with False show ?thesis by simp
    qed
    from lt B have "if s0 < s
        then map_option fst (find (\<lambda>p. ratio text (snd p) = s) (p # ps)) = Some l
        else l = l0"
      by (simp only: if_True)
    with A show ?thesis by (rule conjI)
  next
    case False
    then have run: "foldl (\<lambda>st p. score_example text (fst p) st (snd p)) (s0, l0) ps = (s, l)"
      using Cons.prems by (simp add: score_example_def)
    note ih = Cons.IH[OF run]
    have s: "s = foldl max s0 (map ?sc ps)"
      by (rule ih[THEN conjunct1])
    have lab: "if s0 < s
               then map_option fst (find (\<lambda>p. ratio text (snd p) = s) ps) = Some l
               else l = l0"
      by (rule ih[THEN conjunct2])
    have A: "s = foldl max s0 (map ?sc (p # ps))"
      unfolding R s using False by (simp add: max_def)
    have B: "if s0 < s
        then map_option fst (find (\<lambda>p. ratio text (snd p) = s) (p # ps)) = Some l
        else l = l0"
    proof (cases "s0 < s")
      case True
      with False have ne: "?sc p \<noteq> s" by auto
      from lab True have "map_option fst (find (\<lambda>p. ratio text (snd p) = s) ps) = Some l"
        by (simp only: if_True)
      with ne have "map_option fst (find (\<lambda>p. ratio text (snd p) = s) (p # ps)) = Some l"
        by simp
      with True show ?thesis by (simp only: if_True)
    next
      case False
      with lab have "l = l0" by (simp only: if_False)
      with False show ?thesis by (simp only: if_False)
    qed
    with A show ?thesis by (rule conjI)
  qed
qed

lemma scan_examples_char:
  assumes "scan_examples D text = (s, l)"
  shows "s = best_ratio D text"
    and "0 < s \<Longrightarrow> map_option fst (earliest_best D text) = Some l"
    and "\<not> 0 < s \<Longrightarrow> l = ''Miscellaneous''"
proof -
  have run: "foldl (\<lambda>st p. score_example text (fst p) st (snd p)) (0, ''Miscellaneous'') (pairs D)
               = (s, l)"
    using assms by (simp add: scan_examples_flat)
  note fs = flat_scan[OF run]
  have eq: "(\<lambda>(general, example). ratio text example) = (\<lambda>p. ratio text (snd p))"
    by (simp add: fun_eq_iff)
  from fs[THEN conjunct1] show s: "s = best_ratio D text"
    by (simp add: best_ratio_def eq)
  have e: "earliest_best D text = find (\<lambda>p. ratio text (snd p) = s) (pairs D)"
    unfolding earliest_best_def Let_def s
    by (rule arg_cong[where f = "\<lambda>P. find P (pairs D)"]) (auto simp: fun_eq_iff)
  show "map_option fst (earliest_best D text) = Some l" if "0 < s"
    using fs[THEN conjunct2] that unfolding e by (simp only: if_True)
  show "l = ''Miscellaneous''" if "\<not> 0 < s"
    using fs[THEN conjunct2] that by (simp only: if_False)
qed

text \<open>
  \<open>best_ratio\<close> is the greatest of the ratios of the pairs, and 0 for a label set without
  examples; a ratio is never negative.
\<close>

lemma best_ratio_Max:
  "best_ratio D text = Max (insert 0 ((\<lambda>(general, example). ratio text example) ` set (pairs D)))"
proof -
  have "foldl max s xs = Max (insert s (set xs))" for s :: rat and xs
  proof (induction xs arbitrary: s)
    case Nil
    show ?case by simp
  next
    case (Cons x xs)
    have "Max (insert s (insert x (set xs))) = max s (Max (insert x (set xs)))"
      by (rule Max_insert) simp_all
    moreover have "Max (insert (max s x) (set xs)) = max s (Max (insert x (set xs)))"
    proof (cases "set xs = {}")
      case True
      then show ?thesis by simp
    next
      case False
      then show ?thesis by (simp add: max.assoc)
    qed
    ultimately show ?case using Cons[of "max s x"] by simp
  qed
  then show ?thesis by (simp add: best_ratio_def)
qed

text \<open>
  The decision line \<open>return best if best_score > 0.8 else "Miscellaneous"\<close> in terms of the
  best ratio and the first pair that attains it.
\<close>

lemma decision_char:
  assumes "(case scan_examples D text of (s, l) \<Rightarrow> if 4 / 5 < s then l else ''Miscellaneous'') = r"
  shows "best_ratio D text \<le> 4 / 5 \<Longrightarrow> r = ''Miscellaneous''"
    and "4 / 5 < best_ratio D text \<Longrightarrow> map_option fst (earliest_best D text) = Some r"
proof -
  obtain s l where sl: "scan_examples D text = (s, l)"
    by (cases "scan_examples D text") auto
  note c = scan_examples_char[OF sl]
  show "r = ''Miscellaneous''" if "best_ratio D text \<le> 4 / 5"
    using assms that by (simp add: sl c(1))
  show "map_option fst (earliest_best D text) = Some r" if "4 / 5 < best_ratio D text"
  proof -
    from that have "0 < s" by (simp add: c(1))
    from c(2)[OF this] assms that show ?thesis by (simp add: sl c(1))
  qed
qed

lemma category_matcher_unfold:
  "get_general_category_from_similarity raw =
     (case scan_examples CATEGORY_EXAMPLES (strip (lower raw)) of
        (s, l) \<Rightarrow> if 4 / 5 < s then l else ''Miscellaneous'')"
  by (simp add: get_general_category_from_similarity_def Let_def)

lemma payment_matcher_unfold:
  "get_general_payment_method raw =
     (case scan_examples PAYMENT_EXAMPLES (strip (lower raw)) of
        (s, l) \<Rightarrow> if 4 / 5 < s then l else ''Miscellaneous'')"
  by (simp add: get_general_payment_method_def Let_def)

lemmas category_matcher_char = decision_char[OF category_matcher_unfold[symmetric]]

lemmas payment_matcher_char = decision_char[OF payment_matcher_unfold[symmetric]]

lemma earliest_best_in_pairs:
  "earliest_best D text = Some (l, e) \<Longrightarrow> (l, e) \<in> set (pairs D) \<and> ratio text e = best_ratio D text"
  unfolding earliest_best_def Let_def by (auto simp: find_Some_iff in_set_conv_nth)

lemma pairs_label: "(l, e) \<in> set (pairs D) \<Longrightarrow> l \<in> set (map fst D)"
  by (force simp: pairs_def)

lemma category_matcher_canonical:
  "get_general_category_from_similarity raw \<in> canonical_labels CATEGORY_EXAMPLES"
proof (cases "4 / 5 < best_ratio CATEGORY_EXAMPLES (strip (lower raw))")
  case True
  from category_matcher_char(2)[OF True] obtain e where
    "earliest_best CATEGORY_EXAMPLES (strip (lower raw))
       = Some (get_general_category_from_similarity raw, e)"
    by auto
  from pairs_label[OF earliest_best_in_pairs[OF this, THEN conjunct1]]
  show ?thesis by (simp add: canonical_labels_def)
next
  case False
  then have "get_general_category_from_similarity raw = ''Miscellaneous''"
    by (intro category_matcher_char(1)) simp
  then show ?thesis by (simp add: canonical_labels_def)
qed

lemma payment_matcher_canonical:
  "get_general_payment_method raw \<in> canonical_labels PAYMENT_EXAMPLES"
proof (cases "4 / 5 < best_ratio PAYMENT_EXAMPLES (strip (lower raw))")
  case True
  from payment_matcher_char(2)[OF True] obtain e where
    "earliest_best PAYMENT_EXAMPLES (strip (lower raw))
       = Some (get_general_payment_method raw, e)"
    by auto
  from pairs_label[OF earliest_best_in_pairs[OF this, THEN conjunct1]]
  show ?thesis by (simp add: canonical_labels_def)
next
  case False
  then have "get_general_payment_method raw = ''Miscellaneous''"
    by (intro payment_matcher_char(1)) simp
  then show ?thesis by (simp add: canonical_labels_def)
qed

lemma canonical_labels_nonempty:
  "[] \<notin> canonical_labels CATEGORY_EXAMPLES" "[] \<notin> canonical_labels PAYMENT_EXAMPLES"
  by (simp_all add: canonical_labels_def CATEGORY_EXAMPLES_def PAYMENT_EXAMPLES_def)

lemma payment_labels_not_default:
  "(l, e) \<in> set (pairs PAYMENT_EXAMPLES) \<Longrightarrow> l \<noteq> ''Miscellaneous''"
  by (auto simp: pairs_def PAYMENT_EXAMPLES_def)


lemma best_ratio_empty_text:
  "\<forall>p \<in> set ps. snd p \<noteq> [] \<Longrightarrow>
   foldl max 0 (map (\<lambda>(general, example). ratio [] example) ps) = 0"
  by (induction ps) (auto simp: ratio_empty)

text \<open>
  One run of the loops gives the best ratio, the answer of the matcher and the label of
  the first best pair.
\<close>

lemma category_from_scan:
  assumes "scan_examples CATEGORY_EXAMPLES (strip (lower raw)) = (s, l)"
  shows "best_ratio CATEGORY_EXAMPLES (strip (lower raw)) = s"
    and "get_general_category_from_similarity raw = (if 4 / 5 < s then l else ''Miscellaneous'')"
    and "0 < s \<Longrightarrow> map_option fst (earliest_best CATEGORY_EXAMPLES (strip (lower raw))) = Some l"
  using scan_examples_char[OF assms] by (simp_all add: category_matcher_unfold assms)

lemma payment_from_scan:
  assumes "scan_examples PAYMENT_EXAMPLES (strip (lower raw)) = (s, l)"
  shows "best_ratio PAYMENT_EXAMPLES (strip (lower raw)) = s"
    and "get_general_payment_method raw = (if 4 / 5 < s then l else ''Miscellaneous'')"
    and "0 < s \<Longrightarrow> map_option fst (earliest_best PAYMENT_EXAMPLES (strip (lower raw))) = Some l"
  using scan_examples_char[OF assms] by (simp_all add: payment_matcher_unfold assms)

lemma strip_lower_empty: "strip (lower []) = []"
  by (simp add: strip_def lower_def)

section \<open>Runs of the matchers on concrete inputs\<close>

text \<open>
  The state \<open>(best_score, best_label)\<close> after the two loops, for the inputs used below; the
  input is lowered and stripped first, as the matchers do.
\<close>

lemma scan_category_lunch:
  "scan_examples CATEGORY_EXAMPLES (strip (lower ''lunch'')) = (1, ''Food'')"
  by code_simp

lemma scan_category_coffe:
  "scan_examples CATEGORY_EXAMPLES (strip (lower ''coffe'')) = (2 / 5, ''Entertainment'')"
  by code_simp

lemma scan_category_xyz123:
  "scan_examples CATEGORY_EXAMPLES (strip (lower ''xyz123'')) = (1 / 5, ''Transport'')"
  by code_simp

lemma scan_category_empty:
  "scan_examples CATEGORY_EXAMPLES (strip (lower [])) = (0, ''Miscellaneous'')"
  by code_simp

lemma scan_category_other:
  "scan_examples CATEGORY_EXAMPLES (strip (lower ''other'')) = (1, ''Miscellaneous'')"
  by code_simp

lemma scan_category_a:
  "scan_examples CATEGORY_EXAMPLES (strip (lower ''a'')) = (2 / 5, ''Transport'')"
  by code_simp

lemma scan_category_bu:
  "scan_examples CATEGORY_EXAMPLES (strip (lower ''bu'')) = (4 / 5, ''Transport'')"
  by code_simp

lemma scan_category_lunc:
  "scan_examples CATEGORY_EXAMPLES (strip (lower ''lunc'')) = (8 / 9, ''Food'')"
  by code_simp

lemma scan_category_Food:
  "scan_examples CATEGORY_EXAMPLES (strip (lower ''Food'')) = (1, ''Food'')"
  by code_simp

lemma scan_payment_td_debit:
  "scan_examples PAYMENT_EXAMPLES (strip (lower ''td debit'')) = (1, ''TD Debit'')"
  by code_simp

lemma scan_payment_empty:
  "scan_examples PAYMENT_EXAMPLES (strip (lower [])) = (0, ''Miscellaneous'')"
  by code_simp

lemma scan_payment_debix:
  "scan_examples PAYMENT_EXAMPLES (strip (lower ''debix'')) = (4 / 5, ''TD Debit'')"
  by code_simp

lemma scan_payment_debi:
  "scan_examples PAYMENT_EXAMPLES (strip (lower ''debi'')) = (8 / 9, ''TD Debit'')"
  by code_simp

lemma scan_payment_TD_Debit:
  "scan_examples PAYMENT_EXAMPLES (strip (lower ''TD Debit'')) = (1, ''TD Debit'')"
  by code_simp

lemma scan_payment_Cash:
  "scan_examples PAYMENT_EXAMPLES (strip (lower ''Cash'')) = (1, ''Cash'')"
  by code_simp

lemma ratio_a_taxi: "ratio (strip (lower ''a'')) ''taxi'' = 2 / 5"
  by code_simp

lemma ratio_a_game: "ratio (strip (lower ''a'')) ''game'' = 2 / 5"
  by code_simp

text \<open>The labels that are their own example, and a label set with a tie.\<close>

lemma category_self_examples:
  "\<forall>(general, examples) \<in> set CATEGORY_EXAMPLES. lower general \<in> set examples \<longrightarrow> general = ''Food''"
  by code_simp

lemma payment_self_examples:
  "\<forall>(general, examples) \<in> set PAYMENT_EXAMPLES.
     lower general \<in> set examples \<longrightarrow> general = ''TD Debit'' \<or> general = ''Cash''"
  by code_simp

lemma scan_tied_table:
  "scan_examples [(''Food'', [''snack'']), (''Entertainment'', [''snack''])] ''snack'' = (1, ''Food'')"
  by code_simp

section \<open>The claims\<close>

subsection \<open>C1: a similarity match ends the pipeline\<close>

text \<open>
  C1, as amended. If the matcher finds a match for the raw label (the best ratio is
  strictly greater than 0.8) and the matched label is not \<open>"Miscellaneous"\<close>, the pipeline
  returns the matched label and makes no call to the classifier: the trace is empty. For
  payment methods every matched label qualifies, since no example belongs to
  \<open>"Miscellaneous"\<close> there. The pipeline tests the value the matcher returned, so a match
  on the label \<open>"Miscellaneous"\<close> itself is handled as no match.
\<close>

theorem pipeline_match_is_final:
  "(4 / 5 < best_ratio CATEGORY_EXAMPLES (strip (lower raw)) \<and>
    map_option fst (earliest_best CATEGORY_EXAMPLES (strip (lower raw))) = Some label \<and>
    label \<noteq> ''Miscellaneous''
    \<longrightarrow> predict_and_refine_category desc raw model vectorizer = (label, [])) \<and>
   (4 / 5 < best_ratio PAYMENT_EXAMPLES (strip (lower raw)) \<and>
    map_option fst (earliest_best PAYMENT_EXAMPLES (strip (lower raw))) = Some label
    \<longrightarrow> predict_and_refine_payment desc raw model' vectorizer' = (label, []))"
proof (intro conjI impI)
  assume a: "4 / 5 < best_ratio CATEGORY_EXAMPLES (strip (lower raw)) \<and>
    map_option fst (earliest_best CATEGORY_EXAMPLES (strip (lower raw))) = Some label \<and>
    label \<noteq> ''Miscellaneous''"
  with category_matcher_char(2)[of raw]
  have "get_general_category_from_similarity raw = label" by simp
  with a show "predict_and_refine_category desc raw model vectorizer = (label, [])"
    by (simp add: predict_and_refine_category_def)
next
  assume a: "4 / 5 < best_ratio PAYMENT_EXAMPLES (strip (lower raw)) \<and>
    map_option fst (earliest_best PAYMENT_EXAMPLES (strip (lower raw))) = Some label"
  with payment_matcher_char(2)[of raw]
  have m: "get_general_payment_method raw = label" by simp
  from a obtain e where "earliest_best PAYMENT_EXAMPLES (strip (lower raw)) = Some (label, e)"
    by auto
  from payment_labels_not_default[OF earliest_best_in_pairs[OF this, THEN conjunct1]]
  have "label \<noteq> ''Miscellaneous''" .
  with m show "predict_and_refine_payment desc raw model' vectorizer' = (label, [])"
    by (simp add: predict_and_refine_payment_def)
qed

text \<open>The theorem at \<open>"lunch"\<close> and \<open>"td debit"\<close>, with classifiers that would answer otherwise.\<close>

theorem pipeline_match_is_final_witness:
  "4 / 5 < best_ratio CATEGORY_EXAMPLES (strip (lower ''lunch'')) \<and>
   map_option fst (earliest_best CATEGORY_EXAMPLES (strip (lower ''lunch''))) = Some ''Food'' \<and>
   ''Food'' \<noteq> ''Miscellaneous'' \<and>
   predict_and_refine_category ''Lunch at cafe'' ''lunch''
       (Some (constant_classifier ''Transport'')) (Some passthrough_vectorizer) = (''Food'', []) \<and>
   4 / 5 < best_ratio PAYMENT_EXAMPLES (strip (lower ''td debit'')) \<and>
   map_option fst (earliest_best PAYMENT_EXAMPLES (strip (lower ''td debit''))) = Some ''TD Debit'' \<and>
   predict_and_refine_payment ''Lunch at cafe'' ''td debit''
       (Some (constant_classifier ''Cash'')) (Some passthrough_vectorizer) = (''TD Debit'', [])"
proof -
  have c1: "4 / 5 < best_ratio CATEGORY_EXAMPLES (strip (lower ''lunch''))"
    by (simp add: category_from_scan(1)[OF scan_category_lunch])
  have c2: "map_option fst (earliest_best CATEGORY_EXAMPLES (strip (lower ''lunch''))) = Some ''Food''"
    by (rule category_from_scan(3)[OF scan_category_lunch]) simp
  have c3: "''Food'' \<noteq> ''Miscellaneous''"
    by simp
  have p1: "4 / 5 < best_ratio PAYMENT_EXAMPLES (strip (lower ''td debit''))"
    by (simp add: payment_from_scan(1)[OF scan_payment_td_debit])
  have p2: "map_option fst (earliest_best PAYMENT_EXAMPLES (strip (lower ''td debit'')))
              = Some ''TD Debit''"
    by (rule payment_from_scan(3)[OF scan_payment_td_debit]) simp
  note r1 = pipeline_match_is_final[of "''lunch''" "''Food''" "''Lunch at cafe''"
         "Some (constant_classifier ''Transport'')" "Some passthrough_vectorizer",
         THEN conjunct1, THEN mp, OF conjI[OF c1 conjI[OF c2 c3]]]
  note r2 = pipeline_match_is_final[of "''td debit''" "''TD Debit''" "''Lunch at cafe''" _ _
         "Some (constant_classifier ''Cash'')" "Some passthrough_vectorizer",
         THEN conjunct2, THEN mp, OF conjI[OF p1 p2]]
  show ?thesis
    by (intro conjI c1 c2 c3 r1 p1 p2 r2)
qed

text \<open>
  The claim as first stated fails at the raw label \<open>"other"\<close>: the matcher finds the pair
  \<open>("Miscellaneous", "other")\<close> with ratio 1, and the pipeline still asks the classifier
  and returns its prediction.
\<close>

theorem pipeline_match_is_final_counterexample:
  "4 / 5 < best_ratio CATEGORY_EXAMPLES (strip (lower ''other'')) \<and>
   map_option fst (earliest_best CATEGORY_EXAMPLES (strip (lower ''other''))) = Some ''Miscellaneous'' \<and>
   predict_and_refine_category ''bus fare'' ''other''
       (Some (constant_classifier ''Transport'')) (Some passthrough_vectorizer)
     = (''Transport'', [Transform ''bus fare'', Predict ''bus fare''])"
proof -
  note f = category_from_scan[OF scan_category_other]
  have b: "4 / 5 < best_ratio CATEGORY_EXAMPLES (strip (lower ''other''))"
    by (simp add: f(1))
  have e: "map_option fst (earliest_best CATEGORY_EXAMPLES (strip (lower ''other'')))
             = Some ''Miscellaneous''"
    by (rule f(3)) simp
  have m: "get_general_category_from_similarity ''other'' = ''Miscellaneous''"
    using f(2) by simp
  have p: "predict_and_refine_category ''bus fare'' ''other''
       (Some (constant_classifier ''Transport'')) (Some passthrough_vectorizer)
     = (''Transport'', [Transform ''bus fare'', Predict ''bus fare''])"
    by (simp add: predict_and_refine_category_def m constant_classifier_def
          passthrough_vectorizer_def)
  show ?thesis
    by (intro conjI b e p)
qed

subsection \<open>C2: scenario A\<close>

text \<open>
  C2. The category matcher returns \<open>"Food"\<close> for \<open>"lunch"\<close> and \<open>"Miscellaneous"\<close> for
  \<open>"xyz123"\<close>. For \<open>"coffe"\<close> the claim and the docstring of the function say \<open>"Food"\<close>,
  but no example is close to it: the best ratio is \<open>2/5\<close> and the code returns
  \<open>"Miscellaneous"\<close>.
\<close>

theorem scenario_A_category_matcher:
  "get_general_category_from_similarity ''lunch'' = ''Food'' \<and>
   get_general_category_from_similarity ''coffe'' = ''Miscellaneous'' \<and>
   best_ratio CATEGORY_EXAMPLES (strip (lower ''coffe'')) = 2 / 5 \<and>
   get_general_category_from_similarity ''xyz123'' = ''Miscellaneous''"
  using category_from_scan(2)[OF scan_category_lunch]
    category_from_scan(1,2)[OF scan_category_coffe]
    category_from_scan(2)[OF scan_category_xyz123]
  by simp

subsection \<open>C3: the threshold is strict\<close>

text \<open>
  C3. A matcher returns a label other than \<open>"Miscellaneous"\<close> only if the best ratio over
  all pairs of its label set is strictly greater than \<open>4/5\<close>; a best ratio of exactly
  \<open>4/5\<close> gives \<open>"Miscellaneous"\<close>; and a best ratio above \<open>4/5\<close> gives the label of a pair
  that attains the best ratio.
\<close>

theorem threshold_is_strict:
  "(get_general_category_from_similarity raw \<noteq> ''Miscellaneous''
      \<longrightarrow> 4 / 5 < best_ratio CATEGORY_EXAMPLES (strip (lower raw))) \<and>
   (best_ratio CATEGORY_EXAMPLES (strip (lower raw)) = 4 / 5
      \<longrightarrow> get_general_category_from_similarity raw = ''Miscellaneous'') \<and>
   (4 / 5 < best_ratio CATEGORY_EXAMPLES (strip (lower raw))
      \<longrightarrow> (\<exists>example. (get_general_category_from_similarity raw, example) \<in> set (pairs CATEGORY_EXAMPLES)
             \<and> ratio (strip (lower raw)) example = best_ratio CATEGORY_EXAMPLES (strip (lower raw)))) \<and>
   (get_general_payment_method raw \<noteq> ''Miscellaneous''
      \<longrightarrow> 4 / 5 < best_ratio PAYMENT_EXAMPLES (strip (lower raw))) \<and>
   (best_ratio PAYMENT_EXAMPLES (strip (lower raw)) = 4 / 5
      \<longrightarrow> get_general_payment_method raw = ''Miscellaneous'') \<and>
   (4 / 5 < best_ratio PAYMENT_EXAMPLES (strip (lower raw))
      \<longrightarrow> (\<exists>example. (get_general_payment_method raw, example) \<in> set (pairs PAYMENT_EXAMPLES)
             \<and> ratio (strip (lower raw)) example = best_ratio PAYMENT_EXAMPLES (strip (lower raw))))"
proof (intro conjI impI)
  let ?x = "strip (lower raw)"
  show "4 / 5 < best_ratio CATEGORY_EXAMPLES ?x"
    if "get_general_category_from_similarity raw \<noteq> ''Miscellaneous''"
    using that category_matcher_char(1)[of raw] by (cases "4 / 5 < best_ratio CATEGORY_EXAMPLES ?x") auto
  show "get_general_category_from_similarity raw = ''Miscellaneous''"
    if "best_ratio CATEGORY_EXAMPLES ?x = 4 / 5"
    using that by (intro category_matcher_char(1)) simp
  show "\<exists>example. (get_general_category_from_similarity raw, example) \<in> set (pairs CATEGORY_EXAMPLES)
             \<and> ratio ?x example = best_ratio CATEGORY_EXAMPLES ?x"
    if "4 / 5 < best_ratio CATEGORY_EXAMPLES ?x"
  proof -
    from category_matcher_char(2)[OF that] obtain e where
      "earliest_best CATEGORY_EXAMPLES ?x = Some (get_general_category_from_similarity raw, e)"
      by auto
    from earliest_best_in_pairs[OF this] show ?thesis by blast
  qed
  show "4 / 5 < best_ratio PAYMENT_EXAMPLES ?x"
    if "get_general_payment_method raw \<noteq> ''Miscellaneous''"
    using that payment_matcher_char(1)[of raw] by (cases "4 / 5 < best_ratio PAYMENT_EXAMPLES ?x") auto
  show "get_general_payment_method raw = ''Miscellaneous''"
    if "best_ratio PAYMENT_EXAMPLES ?x = 4 / 5"
    using that by (intro payment_matcher_char(1)) simp
  show "\<exists>example. (get_general_payment_method raw, example) \<in> set (pairs PAYMENT_EXAMPLES)
             \<and> ratio ?x example = best_ratio PAYMENT_EXAMPLES ?x"
    if "4 / 5 < best_ratio PAYMENT_EXAMPLES ?x"
  proof -
    from payment_matcher_char(2)[OF that] obtain e where
      "earliest_best PAYMENT_EXAMPLES ?x = Some (get_general_payment_method raw, e)"
      by auto
    from earliest_best_in_pairs[OF this] show ?thesis by blast
  qed
qed

text \<open>
  The theorem at \<open>"bu"\<close> and \<open>"debix"\<close>, whose best ratio is exactly \<open>4/5\<close> (against
  \<open>"bus"\<close> and \<open>"debit"\<close>), and at \<open>"lunc"\<close> and \<open>"debi"\<close>, whose best ratio is \<open>8/9\<close>.
\<close>

theorem threshold_is_strict_witness:
  "best_ratio CATEGORY_EXAMPLES (strip (lower ''bu'')) = 4 / 5 \<and>
   get_general_category_from_similarity ''bu'' = ''Miscellaneous'' \<and>
   get_general_category_from_similarity ''lunc'' \<noteq> ''Miscellaneous'' \<and>
   best_ratio CATEGORY_EXAMPLES (strip (lower ''lunc'')) = 8 / 9 \<and>
   4 / 5 < best_ratio CATEGORY_EXAMPLES (strip (lower ''lunc'')) \<and>
   (\<exists>example. (get_general_category_from_similarity ''lunc'', example) \<in> set (pairs CATEGORY_EXAMPLES)
      \<and> ratio (strip (lower ''lunc'')) example = best_ratio CATEGORY_EXAMPLES (strip (lower ''lunc''))) \<and>
   best_ratio PAYMENT_EXAMPLES (strip (lower ''debix'')) = 4 / 5 \<and>
   get_general_payment_method ''debix'' = ''Miscellaneous'' \<and>
   get_general_payment_method ''debi'' \<noteq> ''Miscellaneous'' \<and>
   4 / 5 < best_ratio PAYMENT_EXAMPLES (strip (lower ''debi'')) \<and>
   (\<exists>example. (get_general_payment_method ''debi'', example) \<in> set (pairs PAYMENT_EXAMPLES)
      \<and> ratio (strip (lower ''debi'')) example = best_ratio PAYMENT_EXAMPLES (strip (lower ''debi'')))"
proof -
  have c1: "best_ratio CATEGORY_EXAMPLES (strip (lower ''bu'')) = 4 / 5"
    by (rule category_from_scan(1)[OF scan_category_bu])
  note c2 = threshold_is_strict[of "''bu''", THEN conjunct2, THEN conjunct1, THEN mp, OF c1]
  have c3: "get_general_category_from_similarity ''lunc'' \<noteq> ''Miscellaneous''"
    using category_from_scan(2)[OF scan_category_lunc] by simp
  have c4: "best_ratio CATEGORY_EXAMPLES (strip (lower ''lunc'')) = 8 / 9"
    by (rule category_from_scan(1)[OF scan_category_lunc])
  note c5 = threshold_is_strict[of "''lunc''", THEN conjunct1, THEN mp, OF c3]
  note c6 = threshold_is_strict[of "''lunc''", THEN conjunct2, THEN conjunct2, THEN conjunct1,
              THEN mp, OF c5]
  have p1: "best_ratio PAYMENT_EXAMPLES (strip (lower ''debix'')) = 4 / 5"
    by (rule payment_from_scan(1)[OF scan_payment_debix])
  note p2 = threshold_is_strict[of "''debix''", THEN conjunct2, THEN conjunct2, THEN conjunct2,
              THEN conjunct2, THEN conjunct1, THEN mp, OF p1]
  have p3: "get_general_payment_method ''debi'' \<noteq> ''Miscellaneous''"
    using payment_from_scan(2)[OF scan_payment_debi] by simp
  note p4 = threshold_is_strict[of "''debi''", THEN conjunct2, THEN conjunct2, THEN conjunct2,
              THEN conjunct1, THEN mp, OF p3]
  note p5 = threshold_is_strict[of "''debi''", THEN conjunct2, THEN conjunct2, THEN conjunct2,
              THEN conjunct2, THEN conjunct2, THEN mp, OF p4]
  show ?thesis
    by (intro conjI c1 c2 c3 c4 c5 c6 p1 p2 p3 p4 p5)
qed

subsection \<open>C4: the pipeline always returns a label\<close>

text \<open>
  C4, as amended. The pipeline is a total function of its inputs: no step of it can raise
  on a string, and a fitted model answers every description. Its result is a non-empty
  member of the keys of the label set with \<open>"Miscellaneous"\<close> added, or else it is the
  prediction of the supplied model for the description, returned as it is; the second
  case arises only when the matcher answers \<open>"Miscellaneous"\<close> and both a model and a
  vectorizer are given. Without a model or without a vectorizer the result is always a
  non-empty member of the keys with \<open>"Miscellaneous"\<close> added.
\<close>

theorem normalize_result_range:
  "(fst (predict_and_refine_category desc raw model vectorizer) \<in> canonical_labels CATEGORY_EXAMPLES
      \<and> fst (predict_and_refine_category desc raw model vectorizer) \<noteq> []
    \<or> (\<exists>m v. model = Some m \<and> vectorizer = Some v
          \<and> get_general_category_from_similarity raw = ''Miscellaneous''
          \<and> predict_and_refine_category desc raw model vectorizer
              = (m (v desc), [Transform desc, Predict (v desc)]))) \<and>
   (model = None \<or> vectorizer = None
      \<longrightarrow> fst (predict_and_refine_category desc raw model vectorizer) \<in> canonical_labels CATEGORY_EXAMPLES
          \<and> fst (predict_and_refine_category desc raw model vectorizer) \<noteq> []) \<and>
   (fst (predict_and_refine_payment desc raw model' vectorizer') \<in> canonical_labels PAYMENT_EXAMPLES
      \<and> fst (predict_and_refine_payment desc raw model' vectorizer') \<noteq> []
    \<or> (\<exists>m v. model' = Some m \<and> vectorizer' = Some v
          \<and> get_general_payment_method raw = ''Miscellaneous''
          \<and> predict_and_refine_payment desc raw model' vectorizer'
              = (m (v desc), [Transform desc, Predict (v desc)]))) \<and>
   (model' = None \<or> vectorizer' = None
      \<longrightarrow> fst (predict_and_refine_payment desc raw model' vectorizer') \<in> canonical_labels PAYMENT_EXAMPLES
          \<and> fst (predict_and_refine_payment desc raw model' vectorizer') \<noteq> [])"
proof -
  have misc: "''Miscellaneous'' \<in> canonical_labels D" for D
    by (simp add: canonical_labels_def)
  have c: "get_general_category_from_similarity raw \<in> canonical_labels CATEGORY_EXAMPLES"
    by (rule category_matcher_canonical)
  then have cn: "get_general_category_from_similarity raw \<noteq> []"
    using canonical_labels_nonempty(1) by auto
  have p: "get_general_payment_method raw \<in> canonical_labels PAYMENT_EXAMPLES"
    by (rule payment_matcher_canonical)
  then have pn: "get_general_payment_method raw \<noteq> []"
    using canonical_labels_nonempty(2) by auto
  show ?thesis
  proof (intro conjI impI)
    show "fst (predict_and_refine_category desc raw model vectorizer) \<in> canonical_labels CATEGORY_EXAMPLES
      \<and> fst (predict_and_refine_category desc raw model vectorizer) \<noteq> []
      \<or> (\<exists>m v. model = Some m \<and> vectorizer = Some v
          \<and> get_general_category_from_similarity raw = ''Miscellaneous''
          \<and> predict_and_refine_category desc raw model vectorizer
              = (m (v desc), [Transform desc, Predict (v desc)]))"
      using c cn misc[of CATEGORY_EXAMPLES]
      by (cases model; cases vectorizer) (auto simp: predict_and_refine_category_def Let_def)
    show "fst (predict_and_refine_category desc raw model vectorizer) \<in> canonical_labels CATEGORY_EXAMPLES"
      if "model = None \<or> vectorizer = None"
      using that c misc[of CATEGORY_EXAMPLES]
      by (cases model; cases vectorizer) (auto simp: predict_and_refine_category_def Let_def)
    show "fst (predict_and_refine_category desc raw model vectorizer) \<noteq> []"
      if "model = None \<or> vectorizer = None"
      using that cn
      by (cases model; cases vectorizer) (auto simp: predict_and_refine_category_def Let_def)
    show "fst (predict_and_refine_payment desc raw model' vectorizer') \<in> canonical_labels PAYMENT_EXAMPLES
      \<and> fst (predict_and_refine_payment desc raw model' vectorizer') \<noteq> []
      \<or> (\<exists>m v. model' = Some m \<and> vectorizer' = Some v
          \<and> get_general_payment_method raw = ''Miscellaneous''
          \<and> predict_and_refine_payment desc raw model' vectorizer'
              = (m (v desc), [Transform desc, Predict (v desc)]))"
      using p pn misc[of PAYMENT_EXAMPLES]
      by (cases model'; cases vectorizer') (auto simp: predict_and_refine_payment_def Let_def)
    show "fst (predict_and_refine_payment desc raw model' vectorizer') \<in> canonical_labels PAYMENT_EXAMPLES"
      if "model' = None \<or> vectorizer' = None"
      using that p misc[of PAYMENT_EXAMPLES]
      by (cases model'; cases vectorizer') (auto simp: predict_and_refine_payment_def Let_def)
    show "fst (predict_and_refine_payment desc raw model' vectorizer') \<noteq> []"
      if "model' = None \<or> vectorizer' = None"
      using that pn
      by (cases model'; cases vectorizer') (auto simp: predict_and_refine_payment_def Let_def)
  qed
qed

text \<open>The theorem without a classifier, on a nonsense label and on the empty string.\<close>

theorem normalize_result_range_witness:
  "((None :: string classifier option) = None \<or> (None :: string vectorizer option) = None) \<and>
   fst (predict_and_refine_category ''???'' ''xyz123''
          (None :: string classifier option) None) \<in> canonical_labels CATEGORY_EXAMPLES \<and>
   fst (predict_and_refine_category ''???'' ''xyz123''
          (None :: string classifier option) None) \<noteq> [] \<and>
   fst (predict_and_refine_payment [] []
          (None :: string classifier option) None) \<in> canonical_labels PAYMENT_EXAMPLES \<and>
   fst (predict_and_refine_payment [] []
          (None :: string classifier option) None) \<noteq> []"
proof -
  have h: "(None :: string classifier option) = None \<or> (None :: string vectorizer option) = None"
    by simp
  note t = normalize_result_range[of "''???''" "''xyz123''" "None :: string classifier option" None,
             THEN conjunct2, THEN conjunct1, THEN mp, OF h]
  note u = normalize_result_range[of "[]" "[]" _ _ "None :: string classifier option" None,
             THEN conjunct2, THEN conjunct2, THEN conjunct2, THEN mp, OF h]
  show ?thesis
    by (intro conjI h t[THEN conjunct1] t[THEN conjunct2] u[THEN conjunct1] u[THEN conjunct2])
qed

text \<open>
  The claim as first stated fails with a classifier whose prediction is not a key of the
  label set: the pipeline hands the prediction on.
\<close>

theorem normalize_result_range_counterexample:
  "predict_and_refine_category ''monthly rent'' ''xyz123''
       (Some (constant_classifier ''Rent'')) (Some passthrough_vectorizer)
     = (''Rent'', [Transform ''monthly rent'', Predict ''monthly rent'']) \<and>
   ''Rent'' \<notin> canonical_labels CATEGORY_EXAMPLES"
proof -
  have m: "get_general_category_from_similarity ''xyz123'' = ''Miscellaneous''"
    using category_from_scan(2)[OF scan_category_xyz123] by simp
  have p: "predict_and_refine_category ''monthly rent'' ''xyz123''
       (Some (constant_classifier ''Rent'')) (Some passthrough_vectorizer)
     = (''Rent'', [Transform ''monthly rent'', Predict ''monthly rent''])"
    by (simp add: predict_and_refine_category_def m constant_classifier_def
          passthrough_vectorizer_def)
  have n: "''Rent'' \<notin> canonical_labels CATEGORY_EXAMPLES"
    by (simp add: canonical_labels_def CATEGORY_EXAMPLES_def)
  show ?thesis
    by (intro conjI p n)
qed

subsection \<open>C5: the stored record keeps the user's input\<close>

text \<open>
  C5. \<open>add_expense_db\<close> appends one record; it holds the category and payment method as
  the user entered them in \<open>original_category\<close> and \<open>original_payment_method\<close>, next to
  the normalized \<open>category\<close> and \<open>payment_method\<close>, which are the results of the pipeline.
  For \<open>"lunch"\<close> paid by \<open>"td debit"\<close> the record holds \<open>"Food"\<close> and \<open>"TD Debit"\<close>.
\<close>

theorem add_expense_db_keeps_original:
  "add_expense_db date' amount' category' description' payment_method'
       category_model category_vectorizer payment_model payment_vectorizer expenses
     = expenses @
       [\<lparr>date = date', amount = amount',
         category = fst (predict_and_refine_category description' category'
                           category_model category_vectorizer),
         original_category = category', description = description',
         payment_method = fst (predict_and_refine_payment description' payment_method'
                                 payment_model payment_vectorizer),
         original_payment_method = payment_method'\<rparr>] \<and>
   add_expense_db ''2025-05-23'' (20 :: rat) ''lunch'' ''Lunch at cafe'' ''td debit''
       (None :: string classifier option) None (None :: string classifier option) None []
     = [\<lparr>date = ''2025-05-23'', amount = 20, category = ''Food'',
         original_category = ''lunch'', description = ''Lunch at cafe'',
         payment_method = ''TD Debit'', original_payment_method = ''td debit''\<rparr>]"
proof -
  have g: "add_expense_db d a c ds pm cm cv pmo pv ex
     = ex @
       [\<lparr>date = d, amount = a,
         category = fst (predict_and_refine_category ds c cm cv),
         original_category = c, description = ds,
         payment_method = fst (predict_and_refine_payment ds pm pmo pv),
         original_payment_method = pm\<rparr>]"
    for d and a :: 'z and c ds pm and cm :: "'u classifier option" and cv
      and pmo :: "'w classifier option" and pv and ex
  proof -
    have c: "(if get_general_category_from_similarity c = ''Miscellaneous'' \<and> cm \<noteq> None \<and> cv \<noteq> None
              then fst (predict_and_refine_category ds c cm cv)
              else get_general_category_from_similarity c)
             = fst (predict_and_refine_category ds c cm cv)"
      by (cases cm; cases cv) (auto simp: predict_and_refine_category_def Let_def)
    have p: "(if get_general_payment_method pm = ''Miscellaneous'' \<and> pmo \<noteq> None \<and> pv \<noteq> None
              then fst (predict_and_refine_payment ds pm pmo pv)
              else get_general_payment_method pm)
             = fst (predict_and_refine_payment ds pm pmo pv)"
      by (cases pmo; cases pv) (auto simp: predict_and_refine_payment_def Let_def)
    show ?thesis
      unfolding add_expense_db_def Let_def c p by simp
  qed
  have lunch: "get_general_category_from_similarity ''lunch'' = ''Food''"
    using category_from_scan(2)[OF scan_category_lunch] by simp
  have debit: "get_general_payment_method ''td debit'' = ''TD Debit''"
    using payment_from_scan(2)[OF scan_payment_td_debit] by simp
  have i: "add_expense_db ''2025-05-23'' (20 :: rat) ''lunch'' ''Lunch at cafe'' ''td debit''
       (None :: string classifier option) None (None :: string classifier option) None []
     = [\<lparr>date = ''2025-05-23'', amount = 20, category = ''Food'',
         original_category = ''lunch'', description = ''Lunch at cafe'',
         payment_method = ''TD Debit'', original_payment_method = ''td debit''\<rparr>]"
    unfolding g by (simp add: predict_and_refine_category_def predict_and_refine_payment_def
                      lunch debit)
  show ?thesis
    by (intro conjI g i)
qed

subsection \<open>C6: too little training data\<close>

text \<open>
  C6. With fewer than two records both training functions return \<open>(None, None)\<close> and do
  not call the fit, so nothing is raised; and a pipeline call without a trained model on
  a raw label that the matcher does not match returns \<open>"Miscellaneous"\<close>.
\<close>

theorem untrained_falls_back_to_default:
  "(length data < 2
      \<longrightarrow> train_category_classifier fit data = Inr (None, None)
          \<and> train_payment_classifier fit' data = Inr (None, None)) \<and>
   (get_general_category_from_similarity raw = ''Miscellaneous''
      \<longrightarrow> predict_and_refine_category desc raw None None = (''Miscellaneous'', [])) \<and>
   (get_general_payment_method raw = ''Miscellaneous''
      \<longrightarrow> predict_and_refine_payment desc raw None None = (''Miscellaneous'', []))"
  by (simp add: train_category_classifier_def train_payment_classifier_def
        predict_and_refine_category_def predict_and_refine_payment_def)

text \<open>The theorem on the empty collection, with a fit that would raise if it were called.\<close>

theorem untrained_falls_back_to_default_witness:
  "length ([] :: rat expense list) < 2 \<and>
   train_category_classifier (failing_fit :: string fit) ([] :: rat expense list) = Inr (None, None) \<and>
   train_payment_classifier (failing_fit :: string fit) ([] :: rat expense list) = Inr (None, None) \<and>
   get_general_category_from_similarity ''xyz123'' = ''Miscellaneous'' \<and>
   predict_and_refine_category ''???'' ''xyz123'' (None :: string classifier option) None
     = (''Miscellaneous'', []) \<and>
   get_general_payment_method [] = ''Miscellaneous'' \<and>
   predict_and_refine_payment ''???'' [] (None :: string classifier option) None
     = (''Miscellaneous'', [])"
proof -
  have h: "length ([] :: rat expense list) < 2"
    by simp
  have c: "get_general_category_from_similarity ''xyz123'' = ''Miscellaneous''"
    using category_from_scan(2)[OF scan_category_xyz123] by simp
  have p: "get_general_payment_method [] = ''Miscellaneous''"
    using payment_from_scan(2)[OF scan_payment_empty] by simp
  note t = untrained_falls_back_to_default[of "[] :: rat expense list" "failing_fit :: string fit"
             "failing_fit :: string fit", THEN conjunct1, THEN mp, OF h]
  note u = untrained_falls_back_to_default[where raw = "''xyz123''" and desc = "''???''",
             THEN conjunct2, THEN conjunct1, THEN mp, OF c]
  note v = untrained_falls_back_to_default[where raw = "[]" and desc = "''???''",
             THEN conjunct2, THEN conjunct2, THEN mp, OF p]
  show ?thesis
    by (intro conjI h t[THEN conjunct1] t[THEN conjunct2] c u p v)
qed

subsection \<open>C7: the matcher is a function of its input and the label set\<close>

text \<open>
  C7. Two calls of a matcher with the same input return the same label, and the loops
  give the same state for the same label set and text. The answer is determined by the
  label set and the lowered, stripped input alone: it is the label of the first pair with
  the best ratio when that ratio exceeds \<open>4/5\<close>, and \<open>"Miscellaneous"\<close> otherwise.
\<close>

theorem matcher_deterministic:
  "(raw1 = raw2 \<longrightarrow>
      get_general_category_from_similarity raw1 = get_general_category_from_similarity raw2
      \<and> get_general_payment_method raw1 = get_general_payment_method raw2) \<and>
   (D1 = D2 \<and> text1 = text2 \<longrightarrow> scan_examples D1 text1 = scan_examples D2 text2) \<and>
   Some (get_general_category_from_similarity raw)
     = (if 4 / 5 < best_ratio CATEGORY_EXAMPLES (strip (lower raw))
        then map_option fst (earliest_best CATEGORY_EXAMPLES (strip (lower raw)))
        else Some ''Miscellaneous'') \<and>
   Some (get_general_payment_method raw)
     = (if 4 / 5 < best_ratio PAYMENT_EXAMPLES (strip (lower raw))
        then map_option fst (earliest_best PAYMENT_EXAMPLES (strip (lower raw)))
        else Some ''Miscellaneous'')"
proof (intro conjI impI)
  show "Some (get_general_category_from_similarity raw)
     = (if 4 / 5 < best_ratio CATEGORY_EXAMPLES (strip (lower raw))
        then map_option fst (earliest_best CATEGORY_EXAMPLES (strip (lower raw)))
        else Some ''Miscellaneous'')"
  proof (cases "4 / 5 < best_ratio CATEGORY_EXAMPLES (strip (lower raw))")
    case True
    from category_matcher_char(2)[OF True] True show ?thesis
      by (simp only: if_True)
  next
    case False
    then have "best_ratio CATEGORY_EXAMPLES (strip (lower raw)) \<le> 4 / 5"
      by (simp only: not_less)
    from category_matcher_char(1)[OF this] False show ?thesis
      by (simp only: if_False)
  qed
  show "Some (get_general_payment_method raw)
     = (if 4 / 5 < best_ratio PAYMENT_EXAMPLES (strip (lower raw))
        then map_option fst (earliest_best PAYMENT_EXAMPLES (strip (lower raw)))
        else Some ''Miscellaneous'')"
  proof (cases "4 / 5 < best_ratio PAYMENT_EXAMPLES (strip (lower raw))")
    case True
    from payment_matcher_char(2)[OF True] True show ?thesis
      by (simp only: if_True)
  next
    case False
    then have "best_ratio PAYMENT_EXAMPLES (strip (lower raw)) \<le> 4 / 5"
      by (simp only: not_less)
    from payment_matcher_char(1)[OF this] False show ?thesis
      by (simp only: if_False)
  qed
qed simp_all

text \<open>The theorem at \<open>"lunch"\<close>.\<close>

theorem matcher_deterministic_witness:
  "''lunch'' = ''lunch'' \<and>
   get_general_category_from_similarity ''lunch'' = get_general_category_from_similarity ''lunch'' \<and>
   get_general_payment_method ''lunch'' = get_general_payment_method ''lunch'' \<and>
   CATEGORY_EXAMPLES = CATEGORY_EXAMPLES \<and>
   scan_examples CATEGORY_EXAMPLES ''lunch'' = scan_examples CATEGORY_EXAMPLES ''lunch''"
proof -
  have h: "''lunch'' = ''lunch''"
    by (rule refl)
  have k: "CATEGORY_EXAMPLES = CATEGORY_EXAMPLES \<and> ''lunch'' = ''lunch''"
    by (intro conjI refl)
  note t = matcher_deterministic[of "''lunch''" "''lunch''", THEN conjunct1, THEN mp, OF h]
  note u = matcher_deterministic[of _ _ CATEGORY_EXAMPLES CATEGORY_EXAMPLES "''lunch''" "''lunch''",
             THEN conjunct2, THEN conjunct1, THEN mp, OF k]
  show ?thesis
    by (intro conjI h t[THEN conjunct1] t[THEN conjunct2] k[THEN conjunct1] u)
qed

subsection \<open>C8: a canonical label that is its own example\<close>

text \<open>
  C8. A canonical label whose lowered form is in its own example list is returned
  unchanged when it is given as raw input; this is the case of \<open>"Food"\<close> among the
  categories and of \<open>"TD Debit"\<close> and \<open>"Cash"\<close> among the payment methods. In particular
  the category matcher returns \<open>"Food"\<close> for \<open>"Food"\<close>.
\<close>

theorem canonical_label_returns_itself:
  "((general, examples) \<in> set CATEGORY_EXAMPLES \<and> lower general \<in> set examples
      \<longrightarrow> get_general_category_from_similarity general = general) \<and>
   ((general, examples) \<in> set PAYMENT_EXAMPLES \<and> lower general \<in> set examples
      \<longrightarrow> get_general_payment_method general = general) \<and>
   get_general_category_from_similarity ''Food'' = ''Food''"
proof (intro conjI impI)
  show food: "get_general_category_from_similarity ''Food'' = ''Food''"
    using category_from_scan(2)[OF scan_category_Food] by simp
  show "get_general_category_from_similarity general = general"
    if "(general, examples) \<in> set CATEGORY_EXAMPLES \<and> lower general \<in> set examples"
  proof -
    from that category_self_examples have "general = ''Food''" by blast
    with food show ?thesis by simp
  qed
  show "get_general_payment_method general = general"
    if "(general, examples) \<in> set PAYMENT_EXAMPLES \<and> lower general \<in> set examples"
  proof -
    from that payment_self_examples have "general = ''TD Debit'' \<or> general = ''Cash''" by blast
    moreover have "get_general_payment_method ''TD Debit'' = ''TD Debit''"
      using payment_from_scan(2)[OF scan_payment_TD_Debit] by simp
    moreover have "get_general_payment_method ''Cash'' = ''Cash''"
      using payment_from_scan(2)[OF scan_payment_Cash] by simp
    ultimately show ?thesis by auto
  qed
qed

text \<open>The theorem at \<open>"Food"\<close> and at \<open>"Cash"\<close>.\<close>

theorem canonical_label_returns_itself_witness:
  "(''Food'', [''drink'', ''lunch'', ''dinner'', ''groceries'', ''food'']) \<in> set CATEGORY_EXAMPLES \<and>
   lower ''Food'' \<in> set [''drink'', ''lunch'', ''dinner'', ''groceries'', ''food''] \<and>
   get_general_category_from_similarity ''Food'' = ''Food'' \<and>
   (''Cash'', [''cash'']) \<in> set PAYMENT_EXAMPLES \<and>
   lower ''Cash'' \<in> set [''cash''] \<and>
   get_general_payment_method ''Cash'' = ''Cash''"
proof -
  have c1: "(''Food'', [''drink'', ''lunch'', ''dinner'', ''groceries'', ''food'']) \<in> set CATEGORY_EXAMPLES"
    by (simp add: CATEGORY_EXAMPLES_def)
  have c2: "lower ''Food'' \<in> set [''drink'', ''lunch'', ''dinner'', ''groceries'', ''food'']"
    by code_simp
  have p1: "(''Cash'', [''cash'']) \<in> set PAYMENT_EXAMPLES"
    by (simp add: PAYMENT_EXAMPLES_def)
  have p2: "lower ''Cash'' \<in> set [''cash'']"
    by code_simp
  note t = canonical_label_returns_itself[of "''Food''"
             "[''drink'', ''lunch'', ''dinner'', ''groceries'', ''food'']",
             THEN conjunct1, THEN mp, OF conjI[OF c1 c2]]
  note u = canonical_label_returns_itself[of "''Cash''" "[''cash'']",
             THEN conjunct2, THEN conjunct1, THEN mp, OF conjI[OF p1 p2]]
  show ?thesis
    by (intro conjI c1 c2 t p1 p2 u)
qed

subsection \<open>C9: the empty input\<close>

text \<open>
  C9. Against a non-empty example the empty input has ratio 0 (the ratio is 1 only
  against the empty example), so over a label set whose examples are all non-empty the
  best ratio is 0, and both matchers answer \<open>"Miscellaneous"\<close>.
\<close>

theorem empty_input_no_match:
  "(example \<noteq> [] \<longrightarrow> ratio (strip (lower [])) example = 0) \<and>
   ratio (strip (lower [])) [] = 1 \<and>
   ([] \<notin> set (map snd (pairs D)) \<longrightarrow> best_ratio D (strip (lower [])) = 0) \<and>
   get_general_category_from_similarity [] = ''Miscellaneous'' \<and>
   get_general_payment_method [] = ''Miscellaneous''"
proof (intro conjI impI)
  show "ratio (strip (lower [])) example = 0" if "example \<noteq> []"
    using that by (simp add: strip_lower_empty ratio_empty)
  show "ratio (strip (lower [])) [] = 1"
    by (simp add: strip_lower_empty ratio_empty)
  show "best_ratio D (strip (lower [])) = 0" if "[] \<notin> set (map snd (pairs D))"
  proof -
    from that have "\<forall>p \<in> set (pairs D). snd p \<noteq> []"
      by force
    then show ?thesis
      unfolding best_ratio_def strip_lower_empty by (rule best_ratio_empty_text)
  qed
  show "get_general_category_from_similarity [] = ''Miscellaneous''"
    using category_from_scan(2)[OF scan_category_empty] by simp
  show "get_general_payment_method [] = ''Miscellaneous''"
    using payment_from_scan(2)[OF scan_payment_empty] by simp
qed

theorem empty_input_no_match_witness:
  "''food'' \<noteq> [] \<and> ratio (strip (lower [])) ''food'' = 0 \<and>
   [] \<notin> set (map snd (pairs CATEGORY_EXAMPLES)) \<and>
   best_ratio CATEGORY_EXAMPLES (strip (lower [])) = 0"
proof -
  have h: "[] \<notin> set (map snd (pairs CATEGORY_EXAMPLES))"
    by (simp add: pairs_def CATEGORY_EXAMPLES_def)
  have f: "''food'' \<noteq> []"
    by simp
  note t = empty_input_no_match[of "''food''" CATEGORY_EXAMPLES]
  note r1 = t[THEN conjunct1, THEN mp, OF f]
  note r2 = t[THEN conjunct2, THEN conjunct2, THEN conjunct1, THEN mp, OF h]
  show ?thesis
    by (intro conjI f r1 h r2)
qed

subsection \<open>C10: ties go to the first pair seen\<close>

text \<open>
  C10, as amended. The loops replace the best pair only on a strictly greater ratio, so
  for every label set the label they end with is the label of the earliest pair, in
  iteration order, that attains the maximal ratio, whenever that ratio is positive. A
  matcher returns this label when the maximal ratio is strictly greater than \<open>4/5\<close>; at
  or below \<open>4/5\<close> it returns \<open>"Miscellaneous"\<close>, whichever pairs are tied.
\<close>

theorem tie_break_first_seen:
  "(0 < fst (scan_examples D text)
      \<longrightarrow> map_option fst (earliest_best D text) = Some (snd (scan_examples D text))) \<and>
   (4 / 5 < best_ratio CATEGORY_EXAMPLES (strip (lower raw))
      \<longrightarrow> map_option fst (earliest_best CATEGORY_EXAMPLES (strip (lower raw)))
            = Some (get_general_category_from_similarity raw)) \<and>
   (4 / 5 < best_ratio PAYMENT_EXAMPLES (strip (lower raw))
      \<longrightarrow> map_option fst (earliest_best PAYMENT_EXAMPLES (strip (lower raw)))
            = Some (get_general_payment_method raw)) \<and>
   (best_ratio CATEGORY_EXAMPLES (strip (lower raw)) \<le> 4 / 5
      \<longrightarrow> get_general_category_from_similarity raw = ''Miscellaneous'') \<and>
   (best_ratio PAYMENT_EXAMPLES (strip (lower raw)) \<le> 4 / 5
      \<longrightarrow> get_general_payment_method raw = ''Miscellaneous'')"
proof (intro conjI impI)
  show "map_option fst (earliest_best D text) = Some (snd (scan_examples D text))"
    if "0 < fst (scan_examples D text)"
    using scan_examples_char(2)[of D "text" "fst (scan_examples D text)" "snd (scan_examples D text)"]
      that by simp
  show "map_option fst (earliest_best CATEGORY_EXAMPLES (strip (lower raw)))
          = Some (get_general_category_from_similarity raw)"
    if "4 / 5 < best_ratio CATEGORY_EXAMPLES (strip (lower raw))"
    by (rule category_matcher_char(2)[OF that])
  show "map_option fst (earliest_best PAYMENT_EXAMPLES (strip (lower raw)))
          = Some (get_general_payment_method raw)"
    if "4 / 5 < best_ratio PAYMENT_EXAMPLES (strip (lower raw))"
    by (rule payment_matcher_char(2)[OF that])
  show "get_general_category_from_similarity raw = ''Miscellaneous''"
    if "best_ratio CATEGORY_EXAMPLES (strip (lower raw)) \<le> 4 / 5"
    by (rule category_matcher_char(1)[OF that])
  show "get_general_payment_method raw = ''Miscellaneous''"
    if "best_ratio PAYMENT_EXAMPLES (strip (lower raw)) \<le> 4 / 5"
    by (rule payment_matcher_char(1)[OF that])
qed

text \<open>
  The theorem on a label set in which two labels share the example \<open>"snack"\<close>, a tie at
  ratio 1 that the first label wins; at \<open>"lunc"\<close> and \<open>"debi"\<close>, above the threshold; and
  at \<open>"a"\<close>, where two labels tie at the maximal ratio \<open>2/5\<close>, and \<open>"debix"\<close>, whose
  maximal ratio is exactly \<open>4/5\<close>.
\<close>

theorem tie_break_first_seen_witness:
  "0 < fst (scan_examples [(''Food'', [''snack'']), (''Entertainment'', [''snack''])] ''snack'') \<and>
   map_option fst (earliest_best [(''Food'', [''snack'']), (''Entertainment'', [''snack''])] ''snack'')
     = Some ''Food'' \<and>
   4 / 5 < best_ratio CATEGORY_EXAMPLES (strip (lower ''lunc'')) \<and>
   map_option fst (earliest_best CATEGORY_EXAMPLES (strip (lower ''lunc'')))
     = Some (get_general_category_from_similarity ''lunc'') \<and>
   4 / 5 < best_ratio PAYMENT_EXAMPLES (strip (lower ''debi'')) \<and>
   map_option fst (earliest_best PAYMENT_EXAMPLES (strip (lower ''debi'')))
     = Some (get_general_payment_method ''debi'') \<and>
   best_ratio CATEGORY_EXAMPLES (strip (lower ''a'')) \<le> 4 / 5 \<and>
   get_general_category_from_similarity ''a'' = ''Miscellaneous'' \<and>
   best_ratio PAYMENT_EXAMPLES (strip (lower ''debix'')) \<le> 4 / 5 \<and>
   get_general_payment_method ''debix'' = ''Miscellaneous''"
proof -
  have t1: "0 < fst (scan_examples [(''Food'', [''snack'']), (''Entertainment'', [''snack''])] ''snack'')"
    by (simp add: scan_tied_table)
  have t2: "map_option fst (earliest_best [(''Food'', [''snack'']), (''Entertainment'', [''snack''])] ''snack'')
     = Some ''Food''"
    using tie_break_first_seen[of "[(''Food'', [''snack'']), (''Entertainment'', [''snack''])]"
            "''snack''", THEN conjunct1, THEN mp, OF t1]
    by (simp add: scan_tied_table)
  have c1: "4 / 5 < best_ratio CATEGORY_EXAMPLES (strip (lower ''lunc''))"
    by (simp add: category_from_scan(1)[OF scan_category_lunc])
  note c2 = tie_break_first_seen[of _ _ "''lunc''", THEN conjunct2, THEN conjunct1, THEN mp, OF c1]
  have p1: "4 / 5 < best_ratio PAYMENT_EXAMPLES (strip (lower ''debi''))"
    by (simp add: payment_from_scan(1)[OF scan_payment_debi])
  note p2 = tie_break_first_seen[of _ _ "''debi''", THEN conjunct2, THEN conjunct2,
              THEN conjunct1, THEN mp, OF p1]
  have a1: "best_ratio CATEGORY_EXAMPLES (strip (lower ''a'')) \<le> 4 / 5"
    by (simp add: category_from_scan(1)[OF scan_category_a])
  note a2 = tie_break_first_seen[of _ _ "''a''", THEN conjunct2, THEN conjunct2,
              THEN conjunct2, THEN conjunct1, THEN mp, OF a1]
  have d1: "best_ratio PAYMENT_EXAMPLES (strip (lower ''debix'')) \<le> 4 / 5"
    by (simp add: payment_from_scan(1)[OF scan_payment_debix])
  note d2 = tie_break_first_seen[of _ _ "''debix''", THEN conjunct2, THEN conjunct2,
              THEN conjunct2, THEN conjunct2, THEN mp, OF d1]
  show ?thesis
    by (intro conjI t1 t2 c1 c2 p1 p2 a1 a2 d1 d2)
qed

text \<open>
  The claim as first stated fails at \<open>"a"\<close>: the pairs \<open>("Transport", "taxi")\<close> and
  \<open>("Entertainment", "game")\<close> share the maximal ratio \<open>2/5\<close>, the earlier one is labelled
  \<open>"Transport"\<close>, and the matcher returns \<open>"Miscellaneous"\<close>.
\<close>

theorem tie_break_first_seen_counterexample:
  "ratio (strip (lower ''a'')) ''taxi'' = best_ratio CATEGORY_EXAMPLES (strip (lower ''a'')) \<and>
   ratio (strip (lower ''a'')) ''game'' = best_ratio CATEGORY_EXAMPLES (strip (lower ''a'')) \<and>
   best_ratio CATEGORY_EXAMPLES (strip (lower ''a'')) = 2 / 5 \<and>
   map_option fst (earliest_best CATEGORY_EXAMPLES (strip (lower ''a''))) = Some ''Transport'' \<and>
   get_general_category_from_similarity ''a'' = ''Miscellaneous''"
proof -
  note f = category_from_scan[OF scan_category_a]
  have b: "best_ratio CATEGORY_EXAMPLES (strip (lower ''a'')) = 2 / 5"
    by (rule f(1))
  have r1: "ratio (strip (lower ''a'')) ''taxi'' = best_ratio CATEGORY_EXAMPLES (strip (lower ''a''))"
    by (simp only: b ratio_a_taxi)
  have r2: "ratio (strip (lower ''a'')) ''game'' = best_ratio CATEGORY_EXAMPLES (strip (lower ''a''))"
    by (simp only: b ratio_a_game)
  have e: "map_option fst (earliest_best CATEGORY_EXAMPLES (strip (lower ''a''))) = Some ''Transport''"
    by (rule f(3)) simp
  have m: "get_general_category_from_similarity ''a'' = ''Miscellaneous''"
    using f(2) by simp
  show ?thesis
    by (intro conjI r1 r2 b e m)
qed

end
